theory Spec2Isabelle
  imports Main
begin

section \<open>Python values and the external pytree registry\<close>

text \<open>
  The polyfills in \<^verbatim>\<open>torch/_dynamo/polyfills/pytree.py\<close> work on arbitrary Python
  objects. The code looks at an object in three ways only: \<^verbatim>\<open>curr is None\<close>,
  \<^verbatim>\<open>type(curr)\<close> and the user's \<^verbatim>\<open>is_leaf(curr)\<close>; everything else goes through
  \<^verbatim>\<open>optree\<close>. A small universe of values is enough: the builtin containers and
  instances of user classes (class name and attribute values).
\<close>

datatype pyval =
    PyNone
  | PyInt int
  | PyStr string
  | PyTuple "pyval list"
  | PyList "pyval list"
  | PyDict "(pyval \<times> pyval) list"
  | PyObject string "pyval list"

datatype pytype =
  NoneType | IntType | StrType | TupleType | ListType | DictType | ClassType string

text \<open>The builtin \<^verbatim>\<open>type(x)\<close>.\<close>

fun py_type :: "pyval \<Rightarrow> pytype" where
  "py_type PyNone = NoneType"
| "py_type (PyInt _) = IntType"
| "py_type (PyStr _) = StrType"
| "py_type (PyTuple _) = TupleType"
| "py_type (PyList _) = ListType"
| "py_type (PyDict _) = DictType"
| "py_type (PyObject c _) = ClassType c"

text \<open>
  The optional \<^verbatim>\<open>is_leaf\<close> argument (\<open>None\<close> when absent) and the reconstruction
  function \<^verbatim>\<open>unflatten_func(metadata, children)\<close> of a registered container. Both are
  caller-supplied or registry-supplied callables; they are taken as pure total functions.
\<close>

type_synonym leaf_predicate = "(pyval \<Rightarrow> bool) option"
type_synonym unflatten_fn = "pyval \<Rightarrow> pyval list \<Rightarrow> pyval"

text \<open>
  The library \<^verbatim>\<open>optree\<close> is not part of the repository; the two entry points the
  polyfills call are parameters of the model:
  \<^item> \<^verbatim>\<open>optree.register_pytree_node.get(cls, namespace="torch")\<close>, the registry lookup,
    which gives a handler (of some type \<open>'h\<close>) or \<open>None\<close>;
  \<^item> \<^verbatim>\<open>optree.tree_flatten_one_level(node, is_leaf=is_leaf, none_is_leaf=True,
    namespace="torch")\<close>, which gives
    \<^verbatim>\<open>(children, metadata, entries, unflatten_func)\<close>.
\<close>

datatype 'h optree = Optree
  (register_pytree_node_get: "pytype \<Rightarrow> 'h option")
  (tree_flatten_one_level:
     "pyval \<Rightarrow> leaf_predicate \<Rightarrow> pyval list \<times> pyval \<times> pyval list \<times> unflatten_fn")

section \<open>\<^verbatim>\<open>PyTreeSpec\<close>\<close>

text \<open>
  The frozen dataclass: the five constructor fields (\<^verbatim>\<open>_children\<close>, \<^verbatim>\<open>_type\<close>,
  \<^verbatim>\<open>_metadata\<close>, \<^verbatim>\<open>_entries\<close>, \<^verbatim>\<open>_unflatten_func\<close>) and the five fields that
  \<^verbatim>\<open>__post_init__\<close> stores. The counts are results of \<^verbatim>\<open>len\<close> and of sums of counts,
  hence natural numbers. \<^verbatim>\<open>_entries\<close> is a tuple, or \<open>None\<close> in the leaf spec.
\<close>

datatype PyTreeSpec = PyTreeSpec
  (p_children: "PyTreeSpec list")
  (p_type: "pytype option")
  (p_metadata: pyval)
  (p_entries: "pyval list option")
  (p_unflatten_func: "unflatten_fn option")
  (num_nodes: nat)
  (num_leaves: nat)
  (num_children: nat)
  (none_is_leaf: bool)
  (namespace: string)

text \<open>Exceptions are values: the exception class and what its message reports.\<close>

datatype message =
    LengthMismatch nat nat PyTreeSpec
  | ExpectedTreeSpec pytype
  | NoneNotIterable
  | NoneNotSubscriptable
  | IndexOutOfRange

datatype error =
    AssertionError
  | ValueError message
  | TypeError message
  | IndexError message

text \<open>
  Construction of a \<^verbatim>\<open>PyTreeSpec\<close>: the generated \<^verbatim>\<open>__init__\<close> stores the five
  arguments, then \<^verbatim>\<open>__post_init__\<close> checks them and stores the derived fields.
\<close>

definition new_PyTreeSpec ::
  "PyTreeSpec list \<Rightarrow> pytype option \<Rightarrow> pyval \<Rightarrow> pyval list option \<Rightarrow> unflatten_fn option
     \<Rightarrow> error + PyTreeSpec" where
  "new_PyTreeSpec cs ty md en uf =
     (case ty of
        None \<Rightarrow>
          if length cs \<noteq> 0 then Inl AssertionError
          else if md \<noteq> PyNone then Inl AssertionError
          else if en \<noteq> None then Inl AssertionError
          else (case uf of
                  Some _ \<Rightarrow> Inl AssertionError
                | None \<Rightarrow> Inr (PyTreeSpec cs ty md en uf 1 1 0 True ''torch''))
      | Some _ \<Rightarrow>
          (case uf of
             None \<Rightarrow> Inl AssertionError
           | Some _ \<Rightarrow>
               Inr (PyTreeSpec cs ty md en uf
                      (1 + sum_list (map num_nodes cs))
                      (sum_list (map num_leaves cs))
                      (length cs)
                      True ''torch'')))"

text \<open>
  The methods \<^verbatim>\<open>is_leaf\<close>, \<^verbatim>\<open>children\<close>, \<^verbatim>\<open>child\<close>, \<^verbatim>\<open>entries\<close> and \<^verbatim>\<open>entry\<close>
  carry the class name, since the functions below have arguments and variables of the
  same names.
\<close>

definition PyTreeSpec_is_leaf :: "PyTreeSpec \<Rightarrow> bool" where
  "PyTreeSpec_is_leaf self \<longleftrightarrow> num_nodes self = 1 \<and> num_leaves self = 1"

text \<open>Indexing a Python sequence with an \<^verbatim>\<open>int\<close>: a negative index counts from the end.\<close>

definition py_index :: "'a list \<Rightarrow> int \<Rightarrow> error + 'a" where
  "py_index xs i =
     (if 0 \<le> i \<and> i < int (length xs) then Inr (xs ! nat i)
      else if i < 0 \<and> - int (length xs) \<le> i then Inr (xs ! nat (int (length xs) + i))
      else Inl (IndexError IndexOutOfRange))"

text \<open>The slice \<^verbatim>\<open>xs[start:end]\<close> for indices that are not negative.\<close>

definition py_slice :: "'a list \<Rightarrow> nat \<Rightarrow> nat \<Rightarrow> 'a list" where
  "py_slice xs start end = take (end - start) (drop start xs)"

definition PyTreeSpec_children :: "PyTreeSpec \<Rightarrow> PyTreeSpec list" where
  "PyTreeSpec_children self = p_children self"

definition PyTreeSpec_child :: "PyTreeSpec \<Rightarrow> int \<Rightarrow> error + PyTreeSpec" where
  "PyTreeSpec_child self index = py_index (p_children self) index"

text \<open>\<^verbatim>\<open>list(self._entries)\<close> and \<^verbatim>\<open>self._entries[index]\<close>; both raise on \<open>None\<close>.\<close>

definition PyTreeSpec_entries :: "PyTreeSpec \<Rightarrow> error + pyval list" where
  "PyTreeSpec_entries self =
     (case p_entries self of
        None \<Rightarrow> Inl (TypeError NoneNotIterable)
      | Some es \<Rightarrow> Inr es)"

definition PyTreeSpec_entry :: "PyTreeSpec \<Rightarrow> int \<Rightarrow> error + pyval" where
  "PyTreeSpec_entry self index =
     (case p_entries self of
        None \<Rightarrow> Inl (TypeError NoneNotSubscriptable)
      | Some es \<Rightarrow> py_index es index)"

text \<open>
  \<^verbatim>\<open>PyTreeSpec.unflatten\<close>. The argument \<open>leaves\<close> is the materialised sequence
  (\<^verbatim>\<open>list(leaves)\<close> for an iterable that is neither list nor tuple). The \<^verbatim>\<open>for\<close> loop
  over \<^verbatim>\<open>self._children\<close> is \<open>unflatten_children\<close>, with the loop variables \<open>start\<close>,
  \<open>end\<close> and \<open>subtrees\<close> as arguments.
\<close>

fun unflatten :: "PyTreeSpec \<Rightarrow> pyval list \<Rightarrow> error + pyval"
  and unflatten_children ::
    "PyTreeSpec list \<Rightarrow> pyval list \<Rightarrow> nat \<Rightarrow> nat \<Rightarrow> pyval list \<Rightarrow> error + pyval list" where
  "unflatten (PyTreeSpec cs ty md en uf nn nl nc nil ns) leaves =
     (if length leaves \<noteq> nl then
        Inl (ValueError (LengthMismatch (length leaves) nl
               (PyTreeSpec cs ty md en uf nn nl nc nil ns)))
      else if PyTreeSpec_is_leaf (PyTreeSpec cs ty md en uf nn nl nc nil ns) then
        py_index leaves 0
      else
        (case unflatten_children cs leaves 0 0 [] of
           Inl e \<Rightarrow> Inl e
         | Inr subtrees \<Rightarrow>
             (case uf of
                None \<Rightarrow> Inl AssertionError
              | Some f \<Rightarrow> Inr (f md subtrees))))"
| "unflatten_children [] leaves start end subtrees = Inr subtrees"
| "unflatten_children (subspec # rest) leaves start end subtrees =
     (case unflatten subspec (py_slice leaves start (end + num_leaves subspec)) of
        Inl e \<Rightarrow> Inl e
      | Inr subtree \<Rightarrow>
          unflatten_children rest leaves
            (end + num_leaves subspec) (end + num_leaves subspec) (subtrees @ [subtree]))"

text \<open>The module-level \<^verbatim>\<open>leafspec = PyTreeSpec([], None, None, None, None)\<close>.\<close>

definition leafspec :: PyTreeSpec where
  "leafspec = projr (new_PyTreeSpec [] None PyNone None None)"

section \<open>The tree walker: \<^verbatim>\<open>tree_iter\<close> and \<^verbatim>\<open>tree_leaves\<close>\<close>

text \<open>
  \<^verbatim>\<open>tree_iter\<close> is a generator around a \<^verbatim>\<open>while stack:\<close> loop. The model runs the
  loop to its end and returns the values yielded, in order, which is what
  \<^verbatim>\<open>list(tree_iter(...))\<close> materialises. The stack is a Python list: \<^verbatim>\<open>pop()\<close> takes
  the last element and \<^verbatim>\<open>extend\<close> appends. Nothing bounds the number of iterations
  (a registry may keep producing children), so the loop is a partial function: \<open>None\<close>
  stands for a loop that never ends.
\<close>

partial_function (option) tree_iter_loop ::
  "'h optree \<Rightarrow> leaf_predicate \<Rightarrow> pyval list \<Rightarrow> pyval list \<Rightarrow> pyval list option" where
  "tree_iter_loop optree is_leaf stack yielded =
     (if stack = [] then Some yielded
      else
        (let curr = last stack; stack = butlast stack in
         if curr = PyNone \<or> (case is_leaf of None \<Rightarrow> False | Some p \<Rightarrow> p curr) then
           tree_iter_loop optree is_leaf stack (yielded @ [curr])
         else if register_pytree_node_get optree (py_type curr) = None then
           tree_iter_loop optree is_leaf stack (yielded @ [curr])
         else
           (case tree_flatten_one_level optree curr is_leaf of
              (children, metadata, entries, unflatten_func) \<Rightarrow>
                tree_iter_loop optree is_leaf (stack @ rev children) yielded)))"

definition tree_iter :: "'h optree \<Rightarrow> pyval \<Rightarrow> leaf_predicate \<Rightarrow> pyval list option" where
  "tree_iter optree tree is_leaf = tree_iter_loop optree is_leaf [tree] []"

definition tree_leaves :: "'h optree \<Rightarrow> pyval \<Rightarrow> leaf_predicate \<Rightarrow> pyval list option" where
  "tree_leaves optree tree is_leaf = tree_iter optree tree is_leaf"

section \<open>\<^verbatim>\<open>tree_flatten\<close>, \<^verbatim>\<open>tree_structure\<close> and \<^verbatim>\<open>tree_unflatten\<close>\<close>

text \<open>
  The generator expression \<^verbatim>\<open>tuple(helper(child, leaves) for child in children)\<close>:
  the calls run left to right and share the list \<open>leaves\<close>, which each call extends;
  the first exception ends the iteration.
\<close>

fun helper_children ::
  "(pyval \<Rightarrow> pyval list \<Rightarrow> (error + PyTreeSpec \<times> pyval list) option)
     \<Rightarrow> pyval list \<Rightarrow> pyval list \<Rightarrow> (error + PyTreeSpec list \<times> pyval list) option" where
  "helper_children h [] leaves = Some (Inr ([], leaves))"
| "helper_children h (child # rest) leaves =
     Option.bind (h child leaves) (\<lambda>r.
       case r of
         Inl e \<Rightarrow> Some (Inl e)
       | Inr (subspec, leaves') \<Rightarrow>
           Option.bind (helper_children h rest leaves') (\<lambda>r'.
             case r' of
               Inl e \<Rightarrow> Some (Inl e)
             | Inr (subspecs, leaves'') \<Rightarrow> Some (Inr (subspec # subspecs, leaves''))))"

lemma helper_children_mono [partial_function_mono]:
  assumes "\<And>child leaves. mono_option (\<lambda>f. F f child leaves)"
  shows "mono_option (\<lambda>f. helper_children (F f) children leaves)"
proof (induction children arbitrary: leaves)
  case Nil
  show ?case by (simp add: option.const_mono)
next
  case (Cons child rest)
  have step: "mono_option (\<lambda>f. case y of
                 Inl e \<Rightarrow> Some (Inl e)
               | Inr (subspec, leaves') \<Rightarrow>
                   Option.bind (helper_children (F f) rest leaves') (\<lambda>r'.
                     case r' of
                       Inl e \<Rightarrow> Some (Inl e)
                     | Inr (subspecs, leaves'') \<Rightarrow> Some (Inr (subspec # subspecs, leaves''))))"
    for y
  proof (cases y)
    case (Inl e)
    then show ?thesis by (simp add: option.const_mono)
  next
    case (Inr p)
    obtain subspec leaves' where "p = (subspec, leaves')" by (cases p)
    with Inr show ?thesis
      by (simp add: bind_mono Cons.IH option.const_mono)
  qed
  show ?case
    unfolding helper_children.simps
    by (rule bind_mono) (rule assms, rule step)
qed

text \<open>
  The inner function \<^verbatim>\<open>helper(node, leaves)\<close> of \<^verbatim>\<open>tree_flatten\<close>. It appends to the
  list \<open>leaves\<close> in place; the model returns the extended list with the spec. The
  recursion follows the registry's decomposition and need not end, hence again a partial
  function.
\<close>

partial_function (option) helper ::
  "'h optree \<Rightarrow> leaf_predicate \<Rightarrow> pyval \<Rightarrow> pyval list
     \<Rightarrow> (error + PyTreeSpec \<times> pyval list) option" where
  "helper optree is_leaf node leaves =
     (if node = PyNone \<or> (case is_leaf of None \<Rightarrow> False | Some p \<Rightarrow> p node) then
        Some (Inr (leafspec, leaves @ [node]))
      else if register_pytree_node_get optree (py_type node) = None then
        Some (Inr (leafspec, leaves @ [node]))
      else
        (case tree_flatten_one_level optree node is_leaf of
           (children, metadata, entries, unflatten_func) \<Rightarrow>
             Option.bind (helper_children (helper optree is_leaf) children leaves) (\<lambda>r.
               case r of
                 Inl e \<Rightarrow> Some (Inl e)
               | Inr (subspecs, leaves') \<Rightarrow>
                   (case new_PyTreeSpec subspecs (Some (py_type node)) metadata
                           (Some entries) (Some unflatten_func) of
                      Inl e \<Rightarrow> Some (Inl e)
                    | Inr treespec \<Rightarrow> Some (Inr (treespec, leaves'))))))"

definition tree_flatten ::
  "'h optree \<Rightarrow> pyval \<Rightarrow> leaf_predicate \<Rightarrow> (error + pyval list \<times> PyTreeSpec) option" where
  "tree_flatten optree tree is_leaf =
     Option.bind (helper optree is_leaf tree []) (\<lambda>r.
       case r of
         Inl e \<Rightarrow> Some (Inl e)
       | Inr (treespec, leaves) \<Rightarrow> Some (Inr (leaves, treespec)))"

definition tree_structure ::
  "'h optree \<Rightarrow> pyval \<Rightarrow> leaf_predicate \<Rightarrow> (error + PyTreeSpec) option" where
  "tree_structure optree tree is_leaf =
     Option.bind (tree_flatten optree tree is_leaf) (\<lambda>r.
       case r of
         Inl e \<Rightarrow> Some (Inl e)
       | Inr (leaves, treespec) \<Rightarrow> Some (Inr treespec))"

text \<open>
  The second argument of \<^verbatim>\<open>tree_unflatten\<close> is any Python object: a \<^verbatim>\<open>PyTreeSpec\<close>
  instance or some other value.
\<close>

datatype pyarg = Spec PyTreeSpec | Value pyval

definition tree_unflatten :: "pyval list \<Rightarrow> pyarg \<Rightarrow> error + pyval" where
  "tree_unflatten leaves treespec =
     (case treespec of
        Value v \<Rightarrow> Inl (TypeError (ExpectedTreeSpec (py_type v)))
      | Spec spec \<Rightarrow> unflatten spec leaves)"

section \<open>Finite trees, constructed specs and an example registry\<close>

text \<open>
  The base case that \<^verbatim>\<open>tree_iter\<close> and \<^verbatim>\<open>helper\<close> share: the node is \<open>None\<close>, or the
  predicate flags it, or its type has no registered decomposition.
\<close>

definition treated_as_leaf :: "'h optree \<Rightarrow> leaf_predicate \<Rightarrow> pyval \<Rightarrow> bool" where
  "treated_as_leaf optree is_leaf node \<longleftrightarrow>
     node = PyNone
     \<or> (case is_leaf of None \<Rightarrow> False | Some p \<Rightarrow> p node)
     \<or> register_pytree_node_get optree (py_type node) = None"

text \<open>
  A finite tree: every registered container decomposes into a list of children, so a tree
  is finite exactly when its depth is bounded. \<open>depth_at_most d\<close> holds when no path of
  decompositions from the node is longer than \<open>d\<close>.
\<close>

fun depth_at_most :: "nat \<Rightarrow> 'h optree \<Rightarrow> leaf_predicate \<Rightarrow> pyval \<Rightarrow> bool" where
  "depth_at_most 0 optree is_leaf node = treated_as_leaf optree is_leaf node"
| "depth_at_most (Suc d) optree is_leaf node =
     (treated_as_leaf optree is_leaf node
      \<or> list_all (depth_at_most d optree is_leaf)
           (fst (tree_flatten_one_level optree node is_leaf)))"

text \<open>
  The specs the code can construct: the class has no other way of making an instance than
  its constructor, applied to children that are instances themselves.
\<close>

inductive constructible :: "PyTreeSpec \<Rightarrow> bool" where
  constructed:
    "list_all constructible cs \<Longrightarrow> new_PyTreeSpec cs ty md en uf = Inr spec \<Longrightarrow> constructible spec"

text \<open>
  The contract of the registry that a round trip relies on, on a finite tree: at every
  container of the tree, the reconstruction function applied to the metadata and the
  children of the decomposition gives the container back.
\<close>

fun reconstructs_upto :: "nat \<Rightarrow> 'h optree \<Rightarrow> leaf_predicate \<Rightarrow> pyval \<Rightarrow> bool" where
  "reconstructs_upto 0 optree is_leaf node = treated_as_leaf optree is_leaf node"
| "reconstructs_upto (Suc d) optree is_leaf node =
     (treated_as_leaf optree is_leaf node
      \<or> (case tree_flatten_one_level optree node is_leaf of
            (children, metadata, entries, unflatten_func) \<Rightarrow>
              unflatten_func metadata children = node
              \<and> list_all (reconstructs_upto d optree is_leaf) children))"

text \<open>All the specs inside a spec: the spec itself and the specs inside its children.\<close>

fun spec_nodes :: "PyTreeSpec \<Rightarrow> PyTreeSpec list" where
  "spec_nodes (PyTreeSpec cs ty md en uf nn nl nc nil ns) =
     PyTreeSpec cs ty md en uf nn nl nc nil ns # concat (map spec_nodes cs)"

text \<open>
  The spec of an internal node as the constructor returns it, and the result of
  \<^verbatim>\<open>helper\<close> on a tree of depth at most \<open>d\<close> as a total function of the tree (used in
  the proofs below to name that result).
\<close>

definition new_internal ::
  "PyTreeSpec list \<Rightarrow> pytype \<Rightarrow> pyval \<Rightarrow> pyval list \<Rightarrow> unflatten_fn \<Rightarrow> PyTreeSpec" where
  "new_internal cs ty md en uf = projr (new_PyTreeSpec cs (Some ty) md (Some en) (Some uf))"

fun flat_upto :: "nat \<Rightarrow> 'h optree \<Rightarrow> leaf_predicate \<Rightarrow> pyval \<Rightarrow> PyTreeSpec \<times> pyval list" where
  "flat_upto 0 optree is_leaf node = (leafspec, [node])"
| "flat_upto (Suc d) optree is_leaf node =
     (if treated_as_leaf optree is_leaf node then (leafspec, [node])
      else
        (case tree_flatten_one_level optree node is_leaf of
           (children, metadata, entries, unflatten_func) \<Rightarrow>
             (new_internal (map (\<lambda>c. fst (flat_upto d optree is_leaf c)) children)
                (py_type node) metadata entries unflatten_func,
              concat (map (\<lambda>c. snd (flat_upto d optree is_leaf c)) children))))"

text \<open>
  A registry for the examples: tuples, lists and dicts are registered, with the
  decompositions \<^verbatim>\<open>optree\<close> gives them (a dict's metadata is its list of keys, in
  insertion order); every other type is a leaf type.
\<close>

definition example_get :: "pytype \<Rightarrow> unit option" where
  "example_get ty = (if ty = TupleType \<or> ty = ListType \<or> ty = DictType then Some () else None)"

fun example_flatten_one_level ::
  "pyval \<Rightarrow> leaf_predicate \<Rightarrow> pyval list \<times> pyval \<times> pyval list \<times> unflatten_fn" where
  "example_flatten_one_level (PyTuple xs) is_leaf =
     (xs, PyNone, map (\<lambda>i. PyInt (int i)) [0..<length xs], \<lambda>md cs. PyTuple cs)"
| "example_flatten_one_level (PyList xs) is_leaf =
     (xs, PyNone, map (\<lambda>i. PyInt (int i)) [0..<length xs], \<lambda>md cs. PyList cs)"
| "example_flatten_one_level (PyDict kvs) is_leaf =
     (map snd kvs, PyList (map fst kvs), map fst kvs,
      \<lambda>md cs. case md of PyList ks \<Rightarrow> PyDict (zip ks cs) | _ \<Rightarrow> PyNone)"
| "example_flatten_one_level node is_leaf = ([], PyNone, [], \<lambda>md cs. node)"

definition example_optree :: "unit optree" where
  "example_optree = Optree example_get example_flatten_one_level"

definition scenario_A :: pyval where
  "scenario_A = PyTuple [PyInt 1, PyList [PyInt 2, PyInt 3]]"

text \<open>
  The slices \<^verbatim>\<open>leaves[start:end]\<close> that the loop of \<^verbatim>\<open>unflatten\<close> takes, one per child,
  with the loop's own arithmetic on \<open>start\<close> and \<open>end\<close>; and the results of a list of
  calls, up to the first exception.
\<close>

fun child_slices :: "PyTreeSpec list \<Rightarrow> pyval list \<Rightarrow> nat \<Rightarrow> nat \<Rightarrow> pyval list list" where
  "child_slices [] leaves start end = []"
| "child_slices (subspec # rest) leaves start end =
     py_slice leaves start (end + num_leaves subspec)
       # child_slices rest leaves (end + num_leaves subspec) (end + num_leaves subspec)"

fun collect :: "(error + 'a) list \<Rightarrow> error + 'a list" where
  "collect [] = Inr []"
| "collect (r # rs) =
     (case r of
        Inl e \<Rightarrow> Inl e
      | Inr x \<Rightarrow> (case collect rs of Inl e \<Rightarrow> Inl e | Inr xs \<Rightarrow> Inr (x # xs)))"

text \<open>Specs for the examples, built with the constructor.\<close>

definition empty_tuple_spec :: PyTreeSpec where
  "empty_tuple_spec = new_internal [] TupleType PyNone [] (\<lambda>md cs. PyTuple cs)"

definition singleton_list_spec :: PyTreeSpec where
  "singleton_list_spec = new_internal [leafspec] ListType PyNone [PyInt 0] (\<lambda>md cs. PyList cs)"

definition scenario_A_spec :: PyTreeSpec where
  "scenario_A_spec =
     new_internal
       [leafspec,
        new_internal [leafspec, leafspec] ListType PyNone [PyInt 0, PyInt 1] (\<lambda>md cs. PyList cs)]
       TupleType PyNone [PyInt 0, PyInt 1] (\<lambda>md cs. PyTuple cs)"

definition nested_empty_spec :: PyTreeSpec where
  "nested_empty_spec =
     new_internal [new_internal [] ListType PyNone [] (\<lambda>md cs. PyList cs)]
       TupleType PyNone [PyInt 0] (\<lambda>md cs. PyTuple cs)"

text \<open>
  An internal spec built with \<open>None\<close> as its entries, \<^verbatim>\<open>PyTreeSpec((), tuple, None, None, f)\<close>:
  \<^verbatim>\<open>__post_init__\<close> checks \<^verbatim>\<open>_entries\<close> on the leaf branch only.
\<close>

definition no_entries_spec :: PyTreeSpec where
  "no_entries_spec =
     projr (new_PyTreeSpec [] (Some TupleType) PyNone None (Some (\<lambda>md cs. PyTuple cs)))"

definition scenario_C :: pyval where
  "scenario_C =
     PyDict [(PyStr ''a'', PyInt 1), (PyStr ''b'', PyDict [(PyStr ''c'', PyInt 2)])]"

section \<open>Basic facts\<close>

lemma leafspec_eq: "leafspec = PyTreeSpec [] None PyNone None None 1 1 0 True ''torch''"
  by (simp add: leafspec_def new_PyTreeSpec_def)

lemma helper_leaf:
  "treated_as_leaf optree is_leaf node \<Longrightarrow>
     helper optree is_leaf node leaves = Some (Inr (leafspec, leaves @ [node]))"
  by (subst helper.simps) (auto simp: treated_as_leaf_def)

lemma tree_iter_loop_Nil: "tree_iter_loop optree is_leaf [] yielded = Some yielded"
  by (subst tree_iter_loop.simps) simp

lemma tree_iter_loop_leaf:
  "treated_as_leaf optree is_leaf node \<Longrightarrow>
     tree_iter_loop optree is_leaf (stack @ [node]) yielded =
     tree_iter_loop optree is_leaf stack (yielded @ [node])"
  by (subst tree_iter_loop.simps) (auto simp: treated_as_leaf_def Let_def)

lemma tree_iter_loop_node:
  "\<not> treated_as_leaf optree is_leaf node \<Longrightarrow>
     tree_iter_loop optree is_leaf (stack @ [node]) yielded =
     tree_iter_loop optree is_leaf
       (stack @ rev (fst (tree_flatten_one_level optree node is_leaf))) yielded"
  by (subst tree_iter_loop.simps) (auto simp: treated_as_leaf_def Let_def split: prod.splits)

lemma helper_node:
  "\<not> treated_as_leaf optree is_leaf node \<Longrightarrow>
     tree_flatten_one_level optree node is_leaf = (cs, md, en, uf) \<Longrightarrow>
     helper optree is_leaf node leaves =
       Option.bind (helper_children (helper optree is_leaf) cs leaves) (\<lambda>r.
         case r of
           Inl e \<Rightarrow> Some (Inl e)
         | Inr (subspecs, leaves') \<Rightarrow>
             (case new_PyTreeSpec subspecs (Some (py_type node)) md (Some en) (Some uf) of
                Inl e \<Rightarrow> Some (Inl e)
              | Inr treespec \<Rightarrow> Some (Inr (treespec, leaves'))))"
  by (subst helper.simps) (auto simp: treated_as_leaf_def)


lemma new_PyTreeSpec_internal:
  "new_PyTreeSpec cs (Some ty) md (Some en) (Some uf) = Inr (new_internal cs ty md en uf)"
  by (simp add: new_internal_def new_PyTreeSpec_def)

lemma helper_children_all:
  assumes "\<And>c ls. c \<in> set cs \<Longrightarrow> h c ls = Some (Inr (S c, ls @ L c))"
  shows "helper_children h cs leaves = Some (Inr (map S cs, leaves @ concat (map L cs)))"
  using assms by (induction cs arbitrary: leaves) simp_all

lemma helper_flat_upto:
  "depth_at_most d optree is_leaf node \<Longrightarrow>
     helper optree is_leaf node leaves =
       Some (Inr (fst (flat_upto d optree is_leaf node),
                  leaves @ snd (flat_upto d optree is_leaf node)))"
proof (induction d arbitrary: node leaves)
  case 0
  then show ?case by (simp add: helper_leaf)
next
  case (Suc d)
  show ?case
  proof (cases "treated_as_leaf optree is_leaf node")
    case True
    then show ?thesis by (simp add: helper_leaf)
  next
    case False
    obtain cs md en uf where dec: "tree_flatten_one_level optree node is_leaf = (cs, md, en, uf)"
      by (cases "tree_flatten_one_level optree node is_leaf") auto
    from Suc.prems False dec have "list_all (depth_at_most d optree is_leaf) cs"
      by simp
    then have each: "\<And>c ls. c \<in> set cs \<Longrightarrow>
        helper optree is_leaf c ls =
          Some (Inr (fst (flat_upto d optree is_leaf c), ls @ snd (flat_upto d optree is_leaf c)))"
      by (simp add: Suc.IH list_all_iff)
    show ?thesis
      by (simp add: helper_node [OF False dec] helper_children_all [OF each]
            new_PyTreeSpec_internal False dec)
  qed
qed

lemma tree_iter_loop_children:
  assumes "\<And>c stack out. c \<in> set cs \<Longrightarrow>
             tree_iter_loop optree is_leaf (stack @ [c]) out =
             tree_iter_loop optree is_leaf stack (out @ L c)"
  shows "tree_iter_loop optree is_leaf (stack @ rev cs) out =
         tree_iter_loop optree is_leaf stack (out @ concat (map L cs))"
  using assms
proof (induction cs arbitrary: out)
  case Nil
  then show ?case by simp
next
  case (Cons c cs)
  have "tree_iter_loop optree is_leaf (stack @ rev (c # cs)) out =
        tree_iter_loop optree is_leaf ((stack @ rev cs) @ [c]) out"
    by simp
  also have "\<dots> = tree_iter_loop optree is_leaf (stack @ rev cs) (out @ L c)"
    by (rule Cons.prems) simp
  also have "\<dots> = tree_iter_loop optree is_leaf stack ((out @ L c) @ concat (map L cs))"
    by (rule Cons.IH) (simp add: Cons.prems)
  finally show ?case by simp
qed

lemma tree_iter_loop_flat_upto:
  "depth_at_most d optree is_leaf node \<Longrightarrow>
     tree_iter_loop optree is_leaf (stack @ [node]) out =
     tree_iter_loop optree is_leaf stack (out @ snd (flat_upto d optree is_leaf node))"
proof (induction d arbitrary: node stack out)
  case 0
  then show ?case by (simp add: tree_iter_loop_leaf)
next
  case (Suc d)
  show ?case
  proof (cases "treated_as_leaf optree is_leaf node")
    case True
    then show ?thesis by (simp add: tree_iter_loop_leaf)
  next
    case False
    obtain cs md en uf where dec: "tree_flatten_one_level optree node is_leaf = (cs, md, en, uf)"
      by (cases "tree_flatten_one_level optree node is_leaf") auto
    from Suc.prems False dec have "list_all (depth_at_most d optree is_leaf) cs"
      by simp
    then have each: "\<And>c stack out. c \<in> set cs \<Longrightarrow>
        tree_iter_loop optree is_leaf (stack @ [c]) out =
        tree_iter_loop optree is_leaf stack (out @ snd (flat_upto d optree is_leaf c))"
      by (simp add: Suc.IH list_all_iff)
    show ?thesis
      using tree_iter_loop_children [OF each, of cs stack out]
      by (simp add: tree_iter_loop_node [OF False] False dec)
  qed
qed

lemma unflatten_children_slices:
  "unflatten_children cs leaves start end acc =
     (case collect (map2 unflatten cs (child_slices cs leaves start end)) of
        Inl e \<Rightarrow> Inl e
      | Inr ts \<Rightarrow> Inr (acc @ ts))"
proof (induction cs arbitrary: start "end" acc)
  case Nil
  then show ?case by simp
next
  case (Cons c cs)
  show ?case
    by (simp add: Cons.IH split: sum.splits)
qed

lemma child_slices_length:
  "start + sum_list (map num_leaves cs) \<le> length leaves \<Longrightarrow>
     map length (child_slices cs leaves start start) = map num_leaves cs"
  by (induction cs arbitrary: start) (auto simp: py_slice_def)

lemma child_slices_concat:
  "concat (child_slices cs leaves start start) =
     take (sum_list (map num_leaves cs)) (drop start leaves)"
proof (induction cs arbitrary: start)
  case Nil
  then show ?case by simp
next
  case (Cons c cs)
  have "take (num_leaves c) (drop start leaves)
          @ take (sum_list (map num_leaves cs)) (drop (start + num_leaves c) leaves)
        = take (num_leaves c + sum_list (map num_leaves cs)) (drop start leaves)"
    by (simp add: take_add add.commute)
  then show ?case
    by (simp add: Cons.IH py_slice_def)
qed

lemma constructible_num_nodes: "constructible spec \<Longrightarrow> 1 \<le> num_nodes spec"
  by (erule constructible.cases) (auto simp: new_PyTreeSpec_def split: option.splits if_splits)

lemma internal_not_leaf:
  assumes "list_all constructible cs"
  shows "\<not> (1 + sum_list (map num_nodes cs) = 1 \<and> sum_list (map num_leaves cs) = 1)"
proof (cases cs)
  case Nil
  then show ?thesis by simp
next
  case (Cons c cs')
  with assms have "constructible c" by simp
  then have "1 \<le> num_nodes c" by (rule constructible_num_nodes)
  with Cons show ?thesis by simp
qed

lemma constructible_cases:
  assumes "constructible spec"
  obtains (leaf) "spec = leafspec"
  | (internal) cs ty md en uf where "list_all constructible cs"
      and "spec = PyTreeSpec cs (Some ty) md en (Some uf)
                    (1 + sum_list (map num_nodes cs)) (sum_list (map num_leaves cs)) (length cs)
                    True ''torch''"
  using assms
  by (cases rule: constructible.cases)
     (auto simp: new_PyTreeSpec_def leafspec_eq split: option.splits if_splits)

lemma is_leaf_leafspec: "PyTreeSpec_is_leaf leafspec"
  by (simp add: PyTreeSpec_is_leaf_def leafspec_eq)

lemma py_slice_length:
  "start + n \<le> length xs \<Longrightarrow> length (py_slice xs start (start + n)) = n"
  by (simp add: py_slice_def)

lemma unflatten_children_total:
  assumes "list_all (\<lambda>c. \<forall>ls. length ls = num_leaves c \<longrightarrow> (\<exists>t. unflatten c ls = Inr t)) cs"
    and "start + sum_list (map num_leaves cs) \<le> length leaves"
  shows "\<exists>ts. unflatten_children cs leaves start start acc = Inr ts"
  using assms
proof (induction cs arbitrary: start acc)
  case Nil
  then show ?case by simp
next
  case (Cons c cs)
  from Cons.prems(2) have "start + num_leaves c \<le> length leaves" by simp
  then have "length (py_slice leaves start (start + num_leaves c)) = num_leaves c"
    by (rule py_slice_length)
  with Cons.prems(1) obtain t where t: "unflatten c (py_slice leaves start (start + num_leaves c)) = Inr t"
    by auto
  from Cons.prems have "\<exists>ts. unflatten_children cs leaves (start + num_leaves c) (start + num_leaves c) (acc @ [t]) = Inr ts"
    by (intro Cons.IH) (simp_all add: add.assoc)
  with t show ?case by simp
qed

lemma internal_spec_not_leaf:
  "list_all constructible cs \<Longrightarrow>
     \<not> PyTreeSpec_is_leaf (PyTreeSpec cs ty md en uf
           (1 + sum_list (map num_nodes cs)) (sum_list (map num_leaves cs)) nc nil ns)"
  using internal_not_leaf [of cs] by (simp add: PyTreeSpec_is_leaf_def)

lemma unflatten_constructible:
  "constructible spec \<Longrightarrow> length leaves = num_leaves spec \<Longrightarrow> \<exists>t. unflatten spec leaves = Inr t"
proof (induction arbitrary: leaves rule: constructible.induct)
  case (constructed cs ty md en uf spec)
  from constructed.IH have cons: "list_all constructible cs"
    and tot: "list_all (\<lambda>c. \<forall>ls. length ls = num_leaves c \<longrightarrow> (\<exists>t. unflatten c ls = Inr t)) cs"
    by (simp_all add: list_all_iff)
  show ?case
  proof (cases ty)
    case None
    with constructed.hyps have "spec = leafspec"
      by (auto simp: new_PyTreeSpec_def leafspec_eq split: option.splits if_splits)
    with constructed.prems show ?thesis
      by (cases leaves) (simp_all add: leafspec_eq PyTreeSpec_is_leaf_def py_index_def)
  next
    case (Some t)
    with constructed.hyps obtain f where uf: "uf = Some f"
      and spec: "spec = PyTreeSpec cs (Some t) md en (Some f)
                    (1 + sum_list (map num_nodes cs)) (sum_list (map num_leaves cs)) (length cs)
                    True ''torch''"
      by (auto simp: new_PyTreeSpec_def split: option.splits)
    from constructed.prems spec have len: "0 + sum_list (map num_leaves cs) \<le> length leaves"
      by simp
    obtain ts where "unflatten_children cs leaves 0 0 [] = Inr ts"
      using unflatten_children_total [OF tot len] by blast
    with spec constructed.prems internal_spec_not_leaf [OF cons] show ?thesis
      by simp
  qed
qed

lemma unflatten_mismatch:
  "length leaves \<noteq> num_leaves spec \<Longrightarrow>
     unflatten spec leaves = Inl (ValueError (LengthMismatch (length leaves) (num_leaves spec) spec))"
  by (cases spec) simp

lemma constructible_children: "constructible spec \<Longrightarrow> list_all constructible (p_children spec)"
  by (erule constructible_cases) (simp_all add: leafspec_eq)

lemma constructible_leafspec: "constructible leafspec"
  by (rule constructed [of "[]" None PyNone None None]) (simp_all add: leafspec_eq new_PyTreeSpec_def)

lemma constructible_new_internal:
  "list_all constructible cs \<Longrightarrow> constructible (new_internal cs ty md en uf)"
  by (erule constructed) (rule new_PyTreeSpec_internal)

lemma new_internal_eq:
  "new_internal cs ty md en uf =
     PyTreeSpec cs (Some ty) md (Some en) (Some uf)
       (1 + sum_list (map num_nodes cs)) (sum_list (map num_leaves cs)) (length cs) True ''torch''"
  by (simp add: new_internal_def new_PyTreeSpec_def)

lemma constructible_empty_tuple_spec: "constructible empty_tuple_spec"
  unfolding empty_tuple_spec_def by (rule constructible_new_internal) simp

lemma constructible_singleton_list_spec: "constructible singleton_list_spec"
  unfolding singleton_list_spec_def
  by (rule constructible_new_internal) (simp add: constructible_leafspec)

lemma constructible_scenario_A_spec: "constructible scenario_A_spec"
  unfolding scenario_A_spec_def
  by (intro constructible_new_internal) (simp add: constructible_leafspec constructible_new_internal)

lemma constructible_nested_empty_spec: "constructible nested_empty_spec"
  unfolding nested_empty_spec_def
  by (intro constructible_new_internal) (simp add: constructible_new_internal)

lemma reconstructs_depth:
  "reconstructs_upto d optree is_leaf node \<Longrightarrow> depth_at_most d optree is_leaf node"
proof (induction d arbitrary: node)
  case 0
  then show ?case by simp
next
  case (Suc d)
  then show ?case
    by (auto simp: list_all_iff split: prod.splits)
qed

text \<open>
  Under the example registry every value is a finite tree that the registry reconstructs,
  whatever the leaf predicate: the hypothesis of the round trip holds on the whole
  universe of values.
\<close>

lemma reconstructs_upto_Suc:
  "reconstructs_upto d optree is_leaf node \<Longrightarrow> reconstructs_upto (Suc d) optree is_leaf node"
proof (induction d arbitrary: node)
  case 0
  then show ?case by simp
next
  case (Suc d)
  show ?case
  proof (cases "treated_as_leaf optree is_leaf node")
    case True
    then show ?thesis by simp
  next
    case False
    obtain cs md en uf where dec: "tree_flatten_one_level optree node is_leaf = (cs, md, en, uf)"
      by (cases "tree_flatten_one_level optree node is_leaf") auto
    from Suc.prems False dec have "uf md cs = node"
      and "list_all (reconstructs_upto d optree is_leaf) cs"
      by simp_all
    then have "uf md cs = node \<and> list_all (reconstructs_upto (Suc d) optree is_leaf) cs"
      using Suc.IH by (simp add: list_all_iff)
    with dec show ?thesis
      by (subst reconstructs_upto.simps) simp
  qed
qed

lemma reconstructs_upto_le:
  "reconstructs_upto d optree is_leaf node \<Longrightarrow> d \<le> d' \<Longrightarrow>
     reconstructs_upto d' optree is_leaf node"
proof (induction d')
  case 0
  then show ?case by simp
next
  case (Suc d')
  show ?case
  proof (cases "d = Suc d'")
    case True
    with Suc.prems show ?thesis by simp
  next
    case False
    with Suc.prems have "d \<le> d'" by simp
    with Suc have "reconstructs_upto d' optree is_leaf node" by blast
    then show ?thesis by (rule reconstructs_upto_Suc)
  qed
qed

lemma reconstructs_upto_all:
  assumes "\<And>x. x \<in> set xs \<Longrightarrow> \<exists>d. reconstructs_upto d optree is_leaf x"
  shows "\<exists>d. list_all (reconstructs_upto d optree is_leaf) xs"
  using assms
proof (induction xs)
  case Nil
  then show ?case by simp
next
  case (Cons x xs)
  then obtain d1 d2 where "reconstructs_upto d1 optree is_leaf x"
    and "list_all (reconstructs_upto d2 optree is_leaf) xs"
    by (meson list.set_intros)
  then have "reconstructs_upto (max d1 d2) optree is_leaf x"
    and "list_all (reconstructs_upto (max d1 d2) optree is_leaf) xs"
    by (auto simp: list_all_iff intro: reconstructs_upto_le)
  then show ?case by auto
qed

lemma example_reconstructs: "\<exists>d. reconstructs_upto d example_optree is_leaf node"
proof (induction node)
  case (PyTuple xs)
  then obtain d where "list_all (reconstructs_upto d example_optree is_leaf) xs"
    using reconstructs_upto_all [of xs example_optree is_leaf] by blast
  then have "reconstructs_upto (Suc d) example_optree is_leaf (PyTuple xs)"
    by (simp add: example_optree_def)
  then show ?case ..
next
  case (PyList xs)
  then obtain d where "list_all (reconstructs_upto d example_optree is_leaf) xs"
    using reconstructs_upto_all [of xs example_optree is_leaf] by blast
  then have "reconstructs_upto (Suc d) example_optree is_leaf (PyList xs)"
    by (simp add: example_optree_def)
  then show ?case ..
next
  case (PyDict kvs)
  then have "\<And>v. v \<in> set (map snd kvs) \<Longrightarrow> \<exists>d. reconstructs_upto d example_optree is_leaf v"
    by (auto simp: snds.simps)
  then obtain d where "list_all (reconstructs_upto d example_optree is_leaf) (map snd kvs)"
    using reconstructs_upto_all [of "map snd kvs" example_optree is_leaf] by blast
  then have "reconstructs_upto (Suc d) example_optree is_leaf (PyDict kvs)"
    by (simp add: example_optree_def zip_map_fst_snd)
  then show ?case ..
next
  case PyNone
  have "reconstructs_upto 0 example_optree is_leaf PyNone"
    by (simp add: treated_as_leaf_def)
  then show ?case ..
next
  case (PyInt i)
  have "reconstructs_upto 0 example_optree is_leaf (PyInt i)"
    by (simp add: treated_as_leaf_def example_optree_def example_get_def)
  then show ?case ..
next
  case (PyStr s)
  have "reconstructs_upto 0 example_optree is_leaf (PyStr s)"
    by (simp add: treated_as_leaf_def example_optree_def example_get_def)
  then show ?case ..
next
  case (PyObject c xs)
  have "reconstructs_upto 0 example_optree is_leaf (PyObject c xs)"
    by (simp add: treated_as_leaf_def example_optree_def example_get_def)
  then show ?case ..
qed

lemma flat_upto_constructible: "constructible (fst (flat_upto d optree is_leaf node))"
proof (induction d arbitrary: node)
  case 0
  show ?case by (simp add: constructible_leafspec)
next
  case (Suc d)
  show ?case
    by (auto simp: constructible_leafspec list_all_iff Suc.IH split: prod.splits
          intro!: constructible_new_internal)
qed

lemma flat_upto_num_leaves:
  "num_leaves (fst (flat_upto d optree is_leaf node)) = length (snd (flat_upto d optree is_leaf node))"
proof (induction d arbitrary: node)
  case 0
  show ?case by (simp add: leafspec_eq)
next
  case (Suc d)
  have "sum_list (map (\<lambda>c. num_leaves (fst (flat_upto d optree is_leaf c))) cs)
        = sum_list (map (\<lambda>c. length (snd (flat_upto d optree is_leaf c))) cs)" for cs
    by (simp add: Suc.IH)
  then show ?case
    by (simp add: leafspec_eq new_internal_eq length_concat comp_def split: prod.splits)
qed

lemma py_slice_middle:
  "py_slice (pre @ xs @ post) (length pre) (length pre + length xs) = xs"
  by (simp add: py_slice_def)

lemma unflatten_children_runs:
  assumes "\<And>c. c \<in> set cs \<Longrightarrow>
             unflatten (S c) (L c) = Inr (T c) \<and> num_leaves (S c) = length (L c)"
  shows "unflatten_children (map S cs) (pre @ concat (map L cs)) (length pre) (length pre) acc
           = Inr (acc @ map T cs)"
  using assms
proof (induction cs arbitrary: pre acc)
  case Nil
  then show ?case by simp
next
  case (Cons c cs)
  have c: "unflatten (S c) (L c) = Inr (T c)" and n: "num_leaves (S c) = length (L c)"
    using Cons.prems [of c] by simp_all
  have rest: "unflatten_children (map S cs) ((pre @ L c) @ concat (map L cs))
                (length (pre @ L c)) (length (pre @ L c)) (acc @ [T c])
              = Inr ((acc @ [T c]) @ map T cs)"
    by (rule Cons.IH) (simp add: Cons.prems)
  show ?case
    using rest py_slice_middle [of pre "L c" "concat (map L cs)"] by (simp add: c n)
qed

lemma unflatten_flat_upto:
  "reconstructs_upto d optree is_leaf node \<Longrightarrow>
     unflatten (fst (flat_upto d optree is_leaf node)) (snd (flat_upto d optree is_leaf node))
       = Inr node"
proof (induction d arbitrary: node)
  case 0
  then show ?case by (simp add: leafspec_eq PyTreeSpec_is_leaf_def py_index_def)
next
  case (Suc d)
  show ?case
  proof (cases "treated_as_leaf optree is_leaf node")
    case True
    then show ?thesis by (simp add: leafspec_eq PyTreeSpec_is_leaf_def py_index_def)
  next
    case False
    obtain cs md en uf where dec: "tree_flatten_one_level optree node is_leaf = (cs, md, en, uf)"
      by (cases "tree_flatten_one_level optree node is_leaf") auto
    let ?S = "\<lambda>c. fst (flat_upto d optree is_leaf c)"
    let ?L = "\<lambda>c. snd (flat_upto d optree is_leaf c)"
    from Suc.prems False dec have inv: "uf md cs = node"
      and sub: "list_all (reconstructs_upto d optree is_leaf) cs"
      by simp_all
    have each: "\<And>c. c \<in> set cs \<Longrightarrow> unflatten (?S c) (?L c) = Inr c \<and> num_leaves (?S c) = length (?L c)"
      using sub by (simp add: list_all_iff Suc.IH flat_upto_num_leaves)
    have loop: "unflatten_children (map ?S cs) (concat (map ?L cs)) 0 0 [] = Inr cs"
      using unflatten_children_runs [of cs ?S ?L "\<lambda>c. c" "[]" "[]", OF each] by simp
    have cons: "list_all constructible (map ?S cs)"
      by (simp add: list_all_iff flat_upto_constructible)
    have len: "length (concat (map ?L cs)) = sum_list (map num_leaves (map ?S cs))"
      by (simp add: length_concat comp_def flat_upto_num_leaves)
    show ?thesis
      using internal_spec_not_leaf [OF cons] loop len inv
      by (simp add: False dec new_internal_eq)
  qed
qed

lemma flat_upto_entries:
  "s \<in> set (spec_nodes (fst (flat_upto d optree is_leaf node))) \<Longrightarrow>
     p_type s \<noteq> None \<Longrightarrow> p_entries s \<noteq> None"
proof (induction d arbitrary: node)
  case 0
  then show ?case by (simp add: leafspec_eq)
next
  case (Suc d)
  show ?case
  proof (cases "treated_as_leaf optree is_leaf node")
    case True
    with Suc.prems show ?thesis by (simp add: leafspec_eq)
  next
    case False
    obtain cs md en uf where dec: "tree_flatten_one_level optree node is_leaf = (cs, md, en, uf)"
      by (cases "tree_flatten_one_level optree node is_leaf") auto
    from Suc.prems(1) False dec
    consider "s = new_internal (map (\<lambda>c. fst (flat_upto d optree is_leaf c)) cs) (py_type node) md en uf"
      | c where "c \<in> set cs" "s \<in> set (spec_nodes (fst (flat_upto d optree is_leaf c)))"
      by (auto simp: new_internal_eq)
    then show ?thesis
    proof cases
      case 1
      then show ?thesis by (simp add: new_internal_eq)
    next
      case 2
      then show ?thesis using Suc.IH Suc.prems(2) by blast
    qed
  qed
qed

lemma py_index_nat: "j < length xs \<Longrightarrow> py_index xs (int j) = Inr (xs ! j)"
  by (simp add: py_index_def)

lemma child_slices_Nil: "child_slices cs [] start end = map (\<lambda>c. []) cs"
  by (induction cs arbitrary: start "end") (simp_all add: py_slice_def)

lemma map2_unflatten_Nil:
  "map2 unflatten cs (map (\<lambda>c. []) cs) = map (\<lambda>c. unflatten c []) cs"
  by (induction cs) simp_all

lemma depth_scenario_A: "depth_at_most (Suc (Suc 0)) example_optree None scenario_A"
  by (simp add: scenario_A_def example_optree_def treated_as_leaf_def example_get_def)

lemma reconstructs_scenario_A:
  "reconstructs_upto (Suc (Suc 0)) example_optree None scenario_A"
  by (simp add: scenario_A_def example_optree_def treated_as_leaf_def example_get_def)

lemma reconstructs_scenario_C:
  "reconstructs_upto (Suc (Suc 0)) example_optree None scenario_C"
  by (simp add: scenario_C_def example_optree_def treated_as_leaf_def example_get_def)

lemma tree_flatten_scenario_A:
  "tree_flatten example_optree scenario_A None
     = Some (Inr ([PyInt 1, PyInt 2, PyInt 3], scenario_A_spec))"
  unfolding tree_flatten_def helper_flat_upto [OF depth_scenario_A]
  by (simp add: scenario_A_def scenario_A_spec_def example_optree_def treated_as_leaf_def
        example_get_def)

lemma tree_leaves_scenario_A:
  "tree_leaves example_optree scenario_A None = Some [PyInt 1, PyInt 2, PyInt 3]"
  unfolding tree_leaves_def tree_iter_def
  using tree_iter_loop_flat_upto [OF depth_scenario_A, of "[]" "[]"]
  by (simp add: tree_iter_loop_Nil scenario_A_def example_optree_def treated_as_leaf_def
        example_get_def)

lemma unflatten_scenario_A:
  "unflatten scenario_A_spec [PyInt 1, PyInt 2, PyInt 3] = Inr scenario_A"
  by (simp add: scenario_A_spec_def scenario_A_def new_internal_eq leafspec_eq
        PyTreeSpec_is_leaf_def py_slice_def py_index_def)

lemma tree_flatten_nested_empty:
  "tree_flatten example_optree (PyTuple [PyList []]) None = Some (Inr ([], nested_empty_spec))"
proof -
  have fin: "depth_at_most (Suc (Suc 0)) example_optree None (PyTuple [PyList []])"
    by (simp add: example_optree_def treated_as_leaf_def example_get_def)
  show ?thesis
    unfolding tree_flatten_def helper_flat_upto [OF fin]
    by (simp add: nested_empty_spec_def example_optree_def treated_as_leaf_def example_get_def)
qed

lemma tree_structure_scenario_A:
  "tree_structure example_optree scenario_A None = Some (Inr scenario_A_spec)"
  unfolding tree_structure_def tree_flatten_def helper_flat_upto [OF depth_scenario_A]
  by (simp add: scenario_A_def scenario_A_spec_def example_optree_def treated_as_leaf_def
        example_get_def)

section \<open>Properties of the specification\<close>

text \<open>
  C1. Round trip. On every finite tree whose containers the registry reconstructs from
  their own decomposition, and for every leaf predicate (absent or not), \<^verbatim>\<open>tree_flatten\<close>
  returns a leaf list and a spec, and \<^verbatim>\<open>tree_unflatten\<close> of the two returns the tree
  itself: same containers, same children in the same order, every leaf where it was.
\<close>

theorem round_trip:
  "reconstructs_upto d optree is_leaf tree \<Longrightarrow>
     \<exists>leaves treespec.
       tree_flatten optree tree is_leaf = Some (Inr (leaves, treespec))
       \<and> tree_unflatten leaves (Spec treespec) = Inr tree"
proof -
  assume r: "reconstructs_upto d optree is_leaf tree"
  have "tree_flatten optree tree is_leaf =
          Some (Inr (snd (flat_upto d optree is_leaf tree), fst (flat_upto d optree is_leaf tree)))"
    by (simp add: tree_flatten_def helper_flat_upto [OF reconstructs_depth [OF r]] case_prod_beta)
  moreover have "tree_unflatten (snd (flat_upto d optree is_leaf tree))
                   (Spec (fst (flat_upto d optree is_leaf tree))) = Inr tree"
    by (simp add: tree_unflatten_def unflatten_flat_upto [OF r])
  ultimately show ?thesis by blast
qed

theorem round_trip_witness:
  "reconstructs_upto (Suc (Suc 0)) example_optree None scenario_A
   \<and> (\<exists>leaves treespec.
        tree_flatten example_optree scenario_A None = Some (Inr (leaves, treespec))
        \<and> tree_unflatten leaves (Spec treespec) = Inr scenario_A)
   \<and> tree_flatten example_optree scenario_A None
       = Some (Inr ([PyInt 1, PyInt 2, PyInt 3], scenario_A_spec))
   \<and> tree_unflatten [PyInt 1, PyInt 2, PyInt 3] (Spec scenario_A_spec) = Inr scenario_A
   \<and> reconstructs_upto (Suc (Suc 0)) example_optree None scenario_C
   \<and> (\<exists>leaves treespec.
        tree_flatten example_optree scenario_C None = Some (Inr (leaves, treespec))
        \<and> tree_unflatten leaves (Spec treespec) = Inr scenario_C)"
  using round_trip [OF reconstructs_scenario_A] round_trip [OF reconstructs_scenario_C]
    reconstructs_scenario_A reconstructs_scenario_C tree_flatten_scenario_A unflatten_scenario_A
  by (simp add: tree_unflatten_def)

text \<open>
  C2. For every finite tree and every leaf predicate (absent or not), \<^verbatim>\<open>tree_flatten\<close>
  returns, and the list that the stack-based walker \<^verbatim>\<open>tree_leaves\<close> produces is the
  leaf list of \<^verbatim>\<open>tree_flatten\<close>, element for element.
\<close>

theorem leaf_order_equivalence:
  "depth_at_most d optree is_leaf tree \<Longrightarrow>
     \<exists>leaves treespec.
       tree_flatten optree tree is_leaf = Some (Inr (leaves, treespec))
       \<and> tree_leaves optree tree is_leaf = Some leaves"
proof -
  assume fin: "depth_at_most d optree is_leaf tree"
  have "tree_flatten optree tree is_leaf =
          Some (Inr (snd (flat_upto d optree is_leaf tree), fst (flat_upto d optree is_leaf tree)))"
    by (simp add: tree_flatten_def helper_flat_upto [OF fin] case_prod_beta)
  moreover have "tree_leaves optree tree is_leaf = Some (snd (flat_upto d optree is_leaf tree))"
    using tree_iter_loop_flat_upto [OF fin, of "[]" "[]"]
    by (simp add: tree_leaves_def tree_iter_def tree_iter_loop_Nil)
  ultimately show ?thesis by blast
qed

theorem leaf_order_equivalence_witness:
  "depth_at_most (Suc (Suc 0)) example_optree None scenario_A
   \<and> (\<exists>leaves treespec.
        tree_flatten example_optree scenario_A None = Some (Inr (leaves, treespec))
        \<and> tree_leaves example_optree scenario_A None = Some leaves)
   \<and> tree_leaves example_optree scenario_A None = Some [PyInt 1, PyInt 2, PyInt 3]
   \<and> tree_flatten example_optree scenario_A None
       = Some (Inr ([PyInt 1, PyInt 2, PyInt 3], scenario_A_spec))"
  using leaf_order_equivalence [OF depth_scenario_A] depth_scenario_A
    tree_leaves_scenario_A tree_flatten_scenario_A
  by simp

text \<open>
  C3. Every spec the constructor builds satisfies the count invariants: a leaf spec (no
  node type) has one node, one leaf and no children; an internal spec has one node more
  than its children together, the leaves of its children together, and as many children as
  its list of children has; the children are constructed specs again. The values are
  immutable, so the counts stay valid, and for a leaf list of the expected length the
  slices that the loop of \<^verbatim>\<open>unflatten\<close> hands to the children (slice \<open>i\<close> has the length
  \<open>num_leaves\<close> of child \<open>i\<close>) concatenate to the whole list: no gap, no overlap.
\<close>

theorem count_invariants:
  "constructible spec \<Longrightarrow>
     (p_type spec = None \<longrightarrow>
        num_nodes spec = 1 \<and> num_leaves spec = 1 \<and> num_children spec = 0)
     \<and> (p_type spec \<noteq> None \<longrightarrow>
          num_nodes spec = 1 + sum_list (map num_nodes (p_children spec))
          \<and> num_leaves spec = sum_list (map num_leaves (p_children spec))
          \<and> num_children spec = length (p_children spec))
     \<and> list_all constructible (p_children spec)
     \<and> (p_type spec \<noteq> None \<and> length leaves = num_leaves spec \<longrightarrow>
          concat (child_slices (p_children spec) leaves 0 0) = leaves
          \<and> map length (child_slices (p_children spec) leaves 0 0)
              = map num_leaves (p_children spec)
          \<and> unflatten_children (p_children spec) leaves 0 0 []
              = collect (map2 unflatten (p_children spec)
                           (child_slices (p_children spec) leaves 0 0)))"
proof (erule constructible_cases)
  assume "spec = leafspec"
  then show ?thesis by (simp add: leafspec_eq)
next
  fix cs ty md en uf
  assume cs: "list_all constructible cs"
    and spec: "spec = PyTreeSpec cs (Some ty) md en (Some uf)
                    (1 + sum_list (map num_nodes cs)) (sum_list (map num_leaves cs)) (length cs)
                    True ''torch''"
  have "unflatten_children cs leaves 0 0 [] = collect (map2 unflatten cs (child_slices cs leaves 0 0))"
    by (simp add: unflatten_children_slices split: sum.splits)
  moreover have "length leaves = sum_list (map num_leaves cs) \<Longrightarrow>
      concat (child_slices cs leaves 0 0) = leaves"
    by (simp add: child_slices_concat)
  moreover have "length leaves = sum_list (map num_leaves cs) \<Longrightarrow>
      map length (child_slices cs leaves 0 0) = map num_leaves cs"
    by (rule child_slices_length) simp
  ultimately show ?thesis
    using cs spec by simp
qed

theorem count_invariants_witness:
  "constructible scenario_A_spec
   \<and> num_nodes scenario_A_spec = 5 \<and> num_leaves scenario_A_spec = 3
   \<and> num_children scenario_A_spec = 2
   \<and> child_slices (p_children scenario_A_spec) [PyInt 1, PyInt 2, PyInt 3] 0 0
       = [[PyInt 1], [PyInt 2, PyInt 3]]
   \<and> concat (child_slices (p_children scenario_A_spec) [PyInt 1, PyInt 2, PyInt 3] 0 0)
       = [PyInt 1, PyInt 2, PyInt 3]"
  using count_invariants [OF constructible_scenario_A_spec, of "[PyInt 1, PyInt 2, PyInt 3]"]
    constructible_scenario_A_spec
  by (simp add: scenario_A_spec_def new_internal_eq leafspec_eq py_slice_def)

text \<open>
  C4. \<^verbatim>\<open>unflatten\<close> on a constructed spec fails with the length-mismatch error exactly
  when the number of leaves supplied differs from \<open>num_leaves\<close>; the error reports the
  supplied count, the expected count and the spec. When the two are equal the call returns
  a tree: no call at any depth fails.
\<close>

theorem unflatten_length_check:
  "constructible spec \<Longrightarrow>
     ((\<exists>supplied expected shown.
          unflatten spec leaves = Inl (ValueError (LengthMismatch supplied expected shown)))
        \<longleftrightarrow> length leaves \<noteq> num_leaves spec)
     \<and> (length leaves \<noteq> num_leaves spec \<longrightarrow>
          unflatten spec leaves
            = Inl (ValueError (LengthMismatch (length leaves) (num_leaves spec) spec)))
     \<and> (length leaves = num_leaves spec \<longrightarrow> (\<exists>tree. unflatten spec leaves = Inr tree))"
proof -
  assume c: "constructible spec"
  show ?thesis
  proof (cases "length leaves = num_leaves spec")
    case True
    then obtain tree where "unflatten spec leaves = Inr tree"
      using unflatten_constructible [OF c] by blast
    with True show ?thesis by simp
  next
    case False
    then show ?thesis by (simp add: unflatten_mismatch)
  qed
qed

theorem unflatten_length_check_witness:
  "constructible scenario_A_spec
   \<and> unflatten scenario_A_spec [] = Inl (ValueError (LengthMismatch 0 3 scenario_A_spec))
   \<and> unflatten scenario_A_spec [PyInt 1, PyInt 2, PyInt 3, PyInt 4]
       = Inl (ValueError (LengthMismatch 4 3 scenario_A_spec))
   \<and> (\<exists>tree. unflatten scenario_A_spec [PyInt 1, PyInt 2, PyInt 3] = Inr tree)"
proof -
  have n: "num_leaves scenario_A_spec = 3"
    by (simp add: scenario_A_spec_def new_internal_eq leafspec_eq)
  show ?thesis
    using unflatten_length_check [OF constructible_scenario_A_spec, of "[]"]
      unflatten_length_check [OF constructible_scenario_A_spec,
        of "[PyInt 1, PyInt 2, PyInt 3, PyInt 4]"]
      unflatten_length_check [OF constructible_scenario_A_spec, of "[PyInt 1, PyInt 2, PyInt 3]"]
      constructible_scenario_A_spec
    by (simp add: n)
qed

text \<open>
  C5. \<^verbatim>\<open>tree_unflatten\<close> fails with a type error, whatever the leaves are, when its second
  argument is not a \<^verbatim>\<open>PyTreeSpec\<close>; on a \<^verbatim>\<open>PyTreeSpec\<close> it returns what the method
  \<^verbatim>\<open>unflatten\<close> returns.
\<close>

theorem tree_unflatten_type_check:
  "tree_unflatten leaves (Value v) = Inl (TypeError (ExpectedTreeSpec (py_type v)))
   \<and> tree_unflatten leaves (Spec spec) = unflatten spec leaves"
  by (simp add: tree_unflatten_def)

text \<open>
  C6. On every constructed spec \<^verbatim>\<open>is_leaf()\<close> is the test
  \<open>num_nodes = 1 \<and> num_leaves = 1\<close>, and it holds exactly when the node type is absent:
  an internal spec is never a leaf, also with one child (two nodes) and with no child
  (one node, but no leaf).
\<close>

theorem is_leaf_iff_type_absent:
  "constructible spec \<Longrightarrow>
     (PyTreeSpec_is_leaf spec \<longleftrightarrow> num_nodes spec = 1 \<and> num_leaves spec = 1)
     \<and> (PyTreeSpec_is_leaf spec \<longleftrightarrow> p_type spec = None)"
proof (erule constructible_cases)
  assume "spec = leafspec"
  then show ?thesis by (simp add: PyTreeSpec_is_leaf_def leafspec_eq)
next
  fix cs ty md en uf
  assume "list_all constructible cs"
    and "spec = PyTreeSpec cs (Some ty) md en (Some uf)
                    (1 + sum_list (map num_nodes cs)) (sum_list (map num_leaves cs)) (length cs)
                    True ''torch''"
  then show ?thesis
    using internal_not_leaf [of cs] by (simp add: PyTreeSpec_is_leaf_def)
qed

theorem is_leaf_iff_type_absent_witness:
  "constructible singleton_list_spec \<and> \<not> PyTreeSpec_is_leaf singleton_list_spec
   \<and> num_nodes singleton_list_spec = 2 \<and> num_leaves singleton_list_spec = 1
   \<and> constructible empty_tuple_spec \<and> \<not> PyTreeSpec_is_leaf empty_tuple_spec
   \<and> num_nodes empty_tuple_spec = 1 \<and> num_leaves empty_tuple_spec = 0
   \<and> constructible leafspec \<and> PyTreeSpec_is_leaf leafspec"
  using is_leaf_iff_type_absent [OF constructible_singleton_list_spec]
    is_leaf_iff_type_absent [OF constructible_empty_tuple_spec]
    is_leaf_iff_type_absent [OF constructible_leafspec]
    constructible_singleton_list_spec constructible_empty_tuple_spec constructible_leafspec
  by (simp add: singleton_list_spec_def empty_tuple_spec_def new_internal_eq leafspec_eq)

text \<open>
  C7. A value that is \<open>None\<close>, or that the leaf predicate flags, or whose type has no
  registered decomposition, is flattened to the singleton list of itself with the
  canonical leaf spec (one leaf, no node type), and \<^verbatim>\<open>tree_iter\<close> yields exactly it.
\<close>

theorem leaf_base_case:
  "node = PyNone \<or> (\<exists>p. is_leaf = Some p \<and> p node)
     \<or> register_pytree_node_get optree (py_type node) = None \<Longrightarrow>
   tree_flatten optree node is_leaf = Some (Inr ([node], leafspec))
   \<and> tree_iter optree node is_leaf = Some [node]
   \<and> num_leaves leafspec = 1 \<and> p_type leafspec = None"
proof -
  assume "node = PyNone \<or> (\<exists>p. is_leaf = Some p \<and> p node)
     \<or> register_pytree_node_get optree (py_type node) = None"
  then have leaf: "treated_as_leaf optree is_leaf node"
    by (auto simp: treated_as_leaf_def)
  have "tree_flatten optree node is_leaf = Some (Inr ([node], leafspec))"
    by (simp add: tree_flatten_def helper_leaf [OF leaf])
  moreover have "tree_iter optree node is_leaf = Some [node]"
    using tree_iter_loop_leaf [OF leaf, of "[]" "[]"]
    by (simp add: tree_iter_def tree_iter_loop_Nil)
  ultimately show ?thesis
    by (simp add: leafspec_eq)
qed

theorem leaf_base_case_witness:
  "tree_flatten example_optree PyNone None = Some (Inr ([PyNone], leafspec))
   \<and> tree_iter example_optree PyNone None = Some [PyNone]
   \<and> tree_flatten example_optree (PyTuple [PyInt 1]) (Some (\<lambda>x. x \<noteq> PyInt 1))
       = Some (Inr ([PyTuple [PyInt 1]], leafspec))
   \<and> tree_iter example_optree (PyObject ''Point'' [PyInt 1, PyInt 2]) None
       = Some [PyObject ''Point'' [PyInt 1, PyInt 2]]"
  using leaf_base_case [of PyNone None example_optree]
    leaf_base_case [of "PyTuple [PyInt 1]" "Some (\<lambda>x. x \<noteq> PyInt 1)" example_optree]
    leaf_base_case [of "PyObject ''Point'' [PyInt 1, PyInt 2]" None example_optree]
  by (simp add: example_optree_def example_get_def)

text \<open>
  C8. \<^verbatim>\<open>unflatten\<close> on a leaf spec (a spec with \<^verbatim>\<open>is_leaf()\<close>, or a constructed spec
  with no node type) and a singleton list returns the element itself, whatever the
  reconstruction field holds. On every finite tree \<^verbatim>\<open>tree_iter\<close>,
  \<^verbatim>\<open>tree_leaves\<close>, \<^verbatim>\<open>tree_flatten\<close> and \<^verbatim>\<open>tree_structure\<close> return (the loop and the
  recursion end, with no exception); \<^verbatim>\<open>unflatten\<close> is a total function by its definition,
  recursive on the spec. The functions take and return values: the list that
  \<^verbatim>\<open>helper\<close> extends is created by the call of \<^verbatim>\<open>tree_flatten\<close> itself.
\<close>

theorem leaf_unflatten_and_termination:
  "(PyTreeSpec_is_leaf spec \<longrightarrow> unflatten spec [x] = Inr x)
   \<and> (constructible spec' \<and> p_type spec' = None \<longrightarrow> unflatten spec' [x] = Inr x)
   \<and> (depth_at_most d optree is_leaf tree \<longrightarrow>
        (\<exists>leaves. tree_iter optree tree is_leaf = Some leaves)
        \<and> (\<exists>leaves. tree_leaves optree tree is_leaf = Some leaves)
        \<and> (\<exists>leaves treespec. tree_flatten optree tree is_leaf = Some (Inr (leaves, treespec)))
        \<and> (\<exists>treespec. tree_structure optree tree is_leaf = Some (Inr treespec)))"
proof (intro conjI impI)
  assume "PyTreeSpec_is_leaf spec"
  then show "unflatten spec [x] = Inr x"
    by (cases spec) (simp add: PyTreeSpec_is_leaf_def py_index_def)
next
  assume "constructible spec' \<and> p_type spec' = None"
  then have "spec' = leafspec"
    by (auto elim: constructible_cases)
  then show "unflatten spec' [x] = Inr x"
    by (simp add: leafspec_eq PyTreeSpec_is_leaf_def py_index_def)
next
  assume fin: "depth_at_most d optree is_leaf tree"
  have it: "tree_iter optree tree is_leaf = Some (snd (flat_upto d optree is_leaf tree))"
    using tree_iter_loop_flat_upto [OF fin, of "[]" "[]"]
    by (simp add: tree_iter_def tree_iter_loop_Nil)
  have fl: "tree_flatten optree tree is_leaf =
          Some (Inr (snd (flat_upto d optree is_leaf tree), fst (flat_upto d optree is_leaf tree)))"
    by (simp add: tree_flatten_def helper_flat_upto [OF fin] case_prod_beta)
  show "\<exists>leaves. tree_iter optree tree is_leaf = Some leaves"
    using it by blast
  show "\<exists>leaves. tree_leaves optree tree is_leaf = Some leaves"
    using it by (simp add: tree_leaves_def)
  show "\<exists>leaves treespec. tree_flatten optree tree is_leaf = Some (Inr (leaves, treespec))"
    using fl by blast
  show "\<exists>treespec. tree_structure optree tree is_leaf = Some (Inr treespec)"
    by (simp add: tree_structure_def fl)
qed

theorem leaf_unflatten_and_termination_witness:
  "PyTreeSpec_is_leaf leafspec \<and> unflatten leafspec [PyInt 7] = Inr (PyInt 7)
   \<and> depth_at_most (Suc (Suc 0)) example_optree None scenario_A
   \<and> (\<exists>leaves. tree_iter example_optree scenario_A None = Some leaves)
   \<and> (\<exists>leaves. tree_leaves example_optree scenario_A None = Some leaves)
   \<and> (\<exists>leaves treespec.
        tree_flatten example_optree scenario_A None = Some (Inr (leaves, treespec)))
   \<and> (\<exists>treespec. tree_structure example_optree scenario_A None = Some (Inr treespec))"
  using leaf_unflatten_and_termination
          [of leafspec "PyInt 7" leafspec "Suc (Suc 0)" example_optree None scenario_A]
    is_leaf_leafspec depth_scenario_A
  by blast

text \<open>
  C9 (amended). An internal spec with no leaves is a valid spec, and \<^verbatim>\<open>unflatten([])\<close> on
  it returns: the length check passes, \<^verbatim>\<open>is_leaf()\<close> is false, every child is unflattened
  from the empty list, and the result is the reconstruction function applied to the
  metadata and the list of the children's results; that list is empty when the spec has no
  children.
\<close>

theorem zero_leaf_unflatten:
  "constructible spec \<Longrightarrow> p_type spec \<noteq> None \<Longrightarrow> num_leaves spec = 0 \<Longrightarrow>
     \<not> PyTreeSpec_is_leaf spec
     \<and> (\<exists>f subtrees.
          p_unflatten_func spec = Some f
          \<and> collect (map (\<lambda>c. unflatten c []) (p_children spec)) = Inr subtrees
          \<and> unflatten spec [] = Inr (f (p_metadata spec) subtrees)
          \<and> (p_children spec = [] \<longrightarrow> unflatten spec [] = Inr (f (p_metadata spec) [])))"
proof (erule constructible_cases)
  assume "spec = leafspec" and "p_type spec \<noteq> None"
  then show ?thesis by (simp add: leafspec_eq)
next
  fix cs ty md en uf
  assume cs: "list_all constructible cs"
    and spec: "spec = PyTreeSpec cs (Some ty) md en (Some uf)
                    (1 + sum_list (map num_nodes cs)) (sum_list (map num_leaves cs)) (length cs)
                    True ''torch''"
    and zero: "num_leaves spec = 0"
  have nl: "\<not> PyTreeSpec_is_leaf spec"
    unfolding spec by (rule internal_spec_not_leaf [OF cs])
  have tot: "list_all (\<lambda>c. \<forall>ls. length ls = num_leaves c \<longrightarrow> (\<exists>t. unflatten c ls = Inr t)) cs"
    using cs by (auto simp: list_all_iff intro: unflatten_constructible)
  from zero spec have "0 + sum_list (map num_leaves cs) \<le> length ([] :: pyval list)"
    by simp
  from unflatten_children_total [OF tot this]
  obtain ts where ts: "unflatten_children cs [] 0 0 [] = Inr ts" by blast
  then have col: "collect (map (\<lambda>c. unflatten c []) cs) = Inr ts"
    by (simp add: unflatten_children_slices child_slices_Nil map2_unflatten_Nil split: sum.splits)
  have res: "unflatten spec [] = Inr (uf md ts)"
    using nl zero ts unfolding spec by simp
  have "cs = [] \<Longrightarrow> ts = []"
    using col by simp
  with nl col res show ?thesis
    unfolding spec by auto
qed

theorem zero_leaf_unflatten_witness:
  "constructible empty_tuple_spec \<and> p_type empty_tuple_spec \<noteq> None
   \<and> num_leaves empty_tuple_spec = 0 \<and> p_children empty_tuple_spec = []
   \<and> \<not> PyTreeSpec_is_leaf empty_tuple_spec
   \<and> (\<exists>f. p_unflatten_func empty_tuple_spec = Some f
          \<and> unflatten empty_tuple_spec [] = Inr (f (p_metadata empty_tuple_spec) []))"
proof -
  have "p_type empty_tuple_spec \<noteq> None" "num_leaves empty_tuple_spec = 0"
    "p_children empty_tuple_spec = []"
    by (simp_all add: empty_tuple_spec_def new_internal_eq)
  with zero_leaf_unflatten [OF constructible_empty_tuple_spec] constructible_empty_tuple_spec
  show ?thesis by auto
qed

text \<open>
  C9 as stated fails on the spec of a tuple that holds one empty list: the spec has no
  leaves and one child, and \<^verbatim>\<open>unflatten([])\<close> passes the child's result to the
  reconstruction function, not the empty list.
\<close>

theorem zero_leaf_unflatten_counterexample:
  "tree_flatten example_optree (PyTuple [PyList []]) None = Some (Inr ([], nested_empty_spec))
   \<and> constructible nested_empty_spec
   \<and> p_type nested_empty_spec = Some TupleType
   \<and> num_leaves nested_empty_spec = 0
   \<and> unflatten nested_empty_spec [] = Inr (PyTuple [PyList []])
   \<and> the (p_unflatten_func nested_empty_spec) (p_metadata nested_empty_spec) [] = PyTuple []
   \<and> unflatten nested_empty_spec []
       \<noteq> Inr (the (p_unflatten_func nested_empty_spec) (p_metadata nested_empty_spec) [])"
  using constructible_nested_empty_spec tree_flatten_nested_empty
  by (simp add: nested_empty_spec_def new_internal_eq PyTreeSpec_is_leaf_def py_slice_def)

text \<open>
  C10 (amended). The leaf spec holds \<open>None\<close> as its entries, so \<^verbatim>\<open>entries()\<close> and
  \<^verbatim>\<open>entry(i)\<close> fail on it (and on every constructed spec without a node type) with a type
  error. On every internal spec constructed with a tuple of entries, which includes every
  internal spec inside a spec that \<^verbatim>\<open>tree_flatten\<close> returns, \<^verbatim>\<open>entries()\<close> returns the list
  of entries and \<^verbatim>\<open>entry(i)\<close> its \<open>i\<close>-th element, for \<open>i\<close> from \<open>0\<close> up to the length
  of that list.
\<close>

theorem entries_access:
  "PyTreeSpec_entries leafspec = Inl (TypeError NoneNotIterable)
   \<and> PyTreeSpec_entry leafspec i = Inl (TypeError NoneNotSubscriptable)
   \<and> (constructible spec \<and> p_type spec = None \<longrightarrow>
        PyTreeSpec_entries spec = Inl (TypeError NoneNotIterable)
        \<and> PyTreeSpec_entry spec i = Inl (TypeError NoneNotSubscriptable))
   \<and> (depth_at_most d optree is_leaf tree
        \<and> tree_structure optree tree is_leaf = Some (Inr treespec)
        \<and> s \<in> set (spec_nodes treespec) \<and> p_type s \<noteq> None \<longrightarrow>
        (\<exists>es. PyTreeSpec_entries s = Inr es
           \<and> (\<forall>j<length es. PyTreeSpec_entry s (int j) = Inr (es ! j))))
   \<and> (new_PyTreeSpec cs (Some ty) md (Some en) uf = Inr spec' \<longrightarrow>
        PyTreeSpec_entries spec' = Inr en
        \<and> (\<forall>j<length en. PyTreeSpec_entry spec' (int j) = Inr (en ! j)))"
proof (intro conjI impI)
  show "PyTreeSpec_entries leafspec = Inl (TypeError NoneNotIterable)"
    by (simp add: PyTreeSpec_entries_def leafspec_eq)
  show "PyTreeSpec_entry leafspec i = Inl (TypeError NoneNotSubscriptable)"
    by (simp add: PyTreeSpec_entry_def leafspec_eq)
next
  assume "constructible spec \<and> p_type spec = None"
  then have "spec = leafspec"
    by (auto elim: constructible_cases)
  then show "PyTreeSpec_entries spec = Inl (TypeError NoneNotIterable)"
    and "PyTreeSpec_entry spec i = Inl (TypeError NoneNotSubscriptable)"
    by (simp_all add: PyTreeSpec_entries_def PyTreeSpec_entry_def leafspec_eq)
next
  assume a: "depth_at_most d optree is_leaf tree
        \<and> tree_structure optree tree is_leaf = Some (Inr treespec)
        \<and> s \<in> set (spec_nodes treespec) \<and> p_type s \<noteq> None"
  then have fin: "depth_at_most d optree is_leaf tree" by simp
  have "tree_structure optree tree is_leaf = Some (Inr (fst (flat_upto d optree is_leaf tree)))"
    by (simp add: tree_structure_def tree_flatten_def helper_flat_upto [OF fin] case_prod_beta)
  with a have "treespec = fst (flat_upto d optree is_leaf tree)" by simp
  with a have "p_entries s \<noteq> None"
    using flat_upto_entries by blast
  then obtain es where "p_entries s = Some es" by blast
  then show "\<exists>es. PyTreeSpec_entries s = Inr es
           \<and> (\<forall>j<length es. PyTreeSpec_entry s (int j) = Inr (es ! j))"
    by (simp add: PyTreeSpec_entries_def PyTreeSpec_entry_def py_index_nat)
next
  assume "new_PyTreeSpec cs (Some ty) md (Some en) uf = Inr spec'"
  then have "p_entries spec' = Some en"
    by (auto simp: new_PyTreeSpec_def split: option.splits)
  then show "PyTreeSpec_entries spec' = Inr en"
    and "\<forall>j<length en. PyTreeSpec_entry spec' (int j) = Inr (en ! j)"
    by (simp_all add: PyTreeSpec_entries_def PyTreeSpec_entry_def py_index_nat)
qed

theorem entries_access_witness:
  "PyTreeSpec_entries leafspec = Inl (TypeError NoneNotIterable)
   \<and> PyTreeSpec_entry leafspec 0 = Inl (TypeError NoneNotSubscriptable)
   \<and> depth_at_most (Suc (Suc 0)) example_optree None scenario_A
   \<and> tree_structure example_optree scenario_A None = Some (Inr scenario_A_spec)
   \<and> scenario_A_spec \<in> set (spec_nodes scenario_A_spec)
   \<and> p_type scenario_A_spec \<noteq> None
   \<and> (\<exists>es. PyTreeSpec_entries scenario_A_spec = Inr es
          \<and> (\<forall>j<length es. PyTreeSpec_entry scenario_A_spec (int j) = Inr (es ! j)))
   \<and> PyTreeSpec_entries scenario_A_spec = Inr [PyInt 0, PyInt 1]"
proof -
  have mem: "scenario_A_spec \<in> set (spec_nodes scenario_A_spec)"
    and ty: "p_type scenario_A_spec \<noteq> None"
    and en: "PyTreeSpec_entries scenario_A_spec = Inr [PyInt 0, PyInt 1]"
    by (simp_all add: scenario_A_spec_def new_internal_eq PyTreeSpec_entries_def)
  show ?thesis
    using entries_access [of 0 leafspec "Suc (Suc 0)" example_optree None scenario_A
            scenario_A_spec scenario_A_spec]
      depth_scenario_A tree_structure_scenario_A mem ty en
    by blast
qed

text \<open>
  C10 as stated fails on an internal spec that is not built with a tuple of entries: the
  constructor accepts \<open>None\<close> as the entries of a spec with a node type, the spec is not a
  leaf, and both accessors fail on it with the type errors of the leaf spec.
\<close>

theorem entries_access_counterexample:
  "new_PyTreeSpec [] (Some TupleType) PyNone None (Some (\<lambda>md cs. PyTuple cs))
     = Inr no_entries_spec
   \<and> constructible no_entries_spec
   \<and> p_type no_entries_spec = Some TupleType
   \<and> \<not> PyTreeSpec_is_leaf no_entries_spec
   \<and> PyTreeSpec_entries no_entries_spec = Inl (TypeError NoneNotIterable)
   \<and> PyTreeSpec_entry no_entries_spec 0 = Inl (TypeError NoneNotSubscriptable)"
proof -
  have built: "new_PyTreeSpec [] (Some TupleType) PyNone None (Some (\<lambda>md cs. PyTuple cs))
                 = Inr no_entries_spec"
    by (simp add: no_entries_spec_def new_PyTreeSpec_def)
  have "list_all constructible []"
    by simp
  then have "constructible no_entries_spec"
    using built by (rule constructed)
  then show ?thesis
    using built
    by (simp add: no_entries_spec_def new_PyTreeSpec_def PyTreeSpec_is_leaf_def
          PyTreeSpec_entries_def PyTreeSpec_entry_def)
qed

end
